theory Spec2Isabelle
  imports Main "HOL-Library.Word"
begin

section \<open>The environment of the script\<close>

text \<open>
  \<^verbatim>\<open>reupload_jsons_to_Orion.py\<close> has one function, \<^verbatim>\<open>main\<close>. Everything it does goes
  through four collaborators that are not part of the repository: \<^verbatim>\<open>glob.glob\<close>,
  the built-in \<^verbatim>\<open>open\<close>, \<^verbatim>\<open>json.load\<close> and \<^verbatim>\<open>Orion.update\<close>. The environment they
  read is a parameter of the model, the record \<open>world\<close>; the model is for a POSIX
  platform (paths joined with \<^verbatim>\<open>/\<close>, file names compared case-sensitively).
\<close>

type_synonym byte = "8 word"

text \<open>A Python \<^verbatim>\<open>str\<close>: the list of its code points.\<close>

type_synonym str = "nat list"

datatype error =
    FileNotFoundError
  | PermissionError
  | IsADirectoryError
  | OSError
  | UnicodeDecodeError
  | JSONDecodeError
  | BrokerError

text \<open>
  What a path names: a regular file (whether the process may read it, and its bytes),
  a directory, an entry of another kind such as a FIFO, a device or a socket (whether
  \<^verbatim>\<open>open\<close> succeeds on it, and the bytes a read then delivers), or nothing.
\<close>

datatype node =
    Regular bool "byte list"
  | Directory
  | Special bool "byte list"
  | Absent

text \<open>
  The encoding that the built-in \<^verbatim>\<open>open\<close> applies in text mode when it is given no
  \<^verbatim>\<open>encoding\<close> argument, as in the script: that of the locale
  (\<^verbatim>\<open>locale.getencoding()\<close>), or UTF-8 when the interpreter runs in its UTF-8 mode.
\<close>

datatype codec = UTF_8 | Latin_1 | ASCII

text \<open>
  \<^item> \<open>scandir d\<close>: the names of the entries of directory \<open>d\<close>, in the order the
    platform lists them, or the \<^verbatim>\<open>OSError\<close> raised when \<open>d\<close> cannot be listed;
  \<^item> \<open>node_at p\<close>: what path \<open>p\<close> names;
  \<^item> \<open>encoding\<close>: the encoding text-mode \<^verbatim>\<open>open\<close> applies, the locale's as a rule;
  \<^item> \<open>loads\<close>: \<^verbatim>\<open>json.loads\<close>, from a text to a document or the error raised.
    The script treats documents opaquely, so their type \<open>'d\<close> is left open;
  \<^item> \<open>update_raises\<close>: the outcome of \<^verbatim>\<open>Orion.update\<close> on a batch, \<open>None\<close> when it
    returns normally;
  \<^item> \<open>argv\<close>, \<open>environ\<close>: the command line and the environment variables of the
    process. The script imports neither \<^verbatim>\<open>sys\<close> nor \<^verbatim>\<open>os\<close> and reads neither. (In a
    real process the environment variables take part in choosing the locale; here the
    locale encoding is the field \<open>encoding\<close>, given directly.)

  The script only parses documents; it never serializes one.
\<close>

record 'd world =
  scandir :: "string \<Rightarrow> error + string list"
  node_at :: "string \<Rightarrow> node"
  encoding :: codec
  loads :: "str \<Rightarrow> error + 'd"
  update_raises :: "'d list \<Rightarrow> error option"
  argv :: "string list"
  environ :: "string \<Rightarrow> string option"

text \<open>What the run does to the outside, in order.\<close>

datatype 'd event =
    Opened string
  | ReadAll string
  | Closed string
  | Updated "'d list"

section \<open>\<^verbatim>\<open>glob.glob\<close>\<close>

text \<open>\<^verbatim>\<open>posixpath.split\<close>: the path up to its last slash, and what follows it.\<close>

definition path_split :: "string \<Rightarrow> string \<times> string" where
  "path_split p =
     (let tail = rev (takeWhile (\<lambda>c. c \<noteq> CHR ''/'') (rev p));
          head = take (length p - length tail) p
      in (if head \<noteq> [] \<and> \<not> list_all (\<lambda>c. c = CHR ''/'') head
          then rev (dropWhile (\<lambda>c. c = CHR ''/'') (rev head))
          else head,
          tail))"

text \<open>\<^verbatim>\<open>posixpath.join\<close> of two components.\<close>

definition path_join :: "string \<Rightarrow> string \<Rightarrow> string" where
  "path_join a b =
     (case b of
        c # _ \<Rightarrow>
          if c = CHR ''/'' then b
          else if a = [] \<or> last a = CHR ''/'' then a @ b
          else a @ ''/'' @ b
      | [] \<Rightarrow> if a = [] \<or> last a = CHR ''/'' then a @ b else a @ ''/'' @ b)"

text \<open>
  \<^verbatim>\<open>glob._ishidden\<close>: \<^verbatim>\<open>path[0] == '.'\<close>. The names of directory entries are never
  empty; the empty name, on which Python would raise, is given \<open>False\<close>.
\<close>

definition ishidden :: "string \<Rightarrow> bool" where
  "ishidden path = (case path of [] \<Rightarrow> False | c # _ \<Rightarrow> c = CHR ''.'')"

text \<open>
  \<^verbatim>\<open>fnmatch\<close> on POSIX for a pattern of literal characters, \<^verbatim>\<open>*\<close> (any run of
  characters) and \<^verbatim>\<open>?\<close> (any one character), matched against the whole name.
  Bracket expressions are not modelled; the pattern of the script has none.
\<close>

fun fnmatch :: "string \<Rightarrow> string \<Rightarrow> bool" where
  "fnmatch [] [] = True"
| "fnmatch [] (c # cs) = False"
| "fnmatch (p # ps) [] = (p = CHR ''*'' \<and> fnmatch ps [])"
| "fnmatch (p # ps) (c # cs) =
     (if p = CHR ''*'' then fnmatch ps (c # cs) \<or> fnmatch (p # ps) cs
      else (p = CHR ''?'' \<or> p = c) \<and> fnmatch ps cs)"

text \<open>
  \<^verbatim>\<open>glob._listdir\<close>: the names in the directory; an \<^verbatim>\<open>OSError\<close> of the listing is
  swallowed and gives no name.
\<close>

definition listdir :: "'d world \<Rightarrow> string \<Rightarrow> string list" where
  "listdir w dirname = (case scandir w dirname of Inl e \<Rightarrow> [] | Inr names \<Rightarrow> names)"

text \<open>
  \<^verbatim>\<open>glob._glob1\<close> with \<^verbatim>\<open>include_hidden=False\<close>: unless the pattern itself starts
  with a dot, names starting with a dot are dropped; then \<^verbatim>\<open>fnmatch.filter\<close>.
\<close>

definition glob1 :: "'d world \<Rightarrow> string \<Rightarrow> string \<Rightarrow> string list" where
  "glob1 w dirname pattern =
     (let names = listdir w dirname;
          names = (if \<not> ishidden pattern then filter (\<lambda>x. \<not> ishidden x) names else names)
      in filter (fnmatch pattern) names)"

text \<open>
  \<^verbatim>\<open>glob.glob(pathname)\<close> with its defaults (\<^verbatim>\<open>recursive=False\<close>,
  \<^verbatim>\<open>include_hidden=False\<close>), for a pathname whose directory part is not empty and
  has no wildcard and whose last component has one, as \<^verbatim>\<open>'json/*.json'\<close>: the one
  directory is listed and each matching name is joined to it.
\<close>

definition glob_glob :: "'d world \<Rightarrow> string \<Rightarrow> string list" where
  "glob_glob w pathname =
     (case path_split pathname of
        (dirname, basename) \<Rightarrow> map (path_join dirname) (glob1 w dirname basename))"

section \<open>\<^verbatim>\<open>open\<close> and reading text\<close>

text \<open>
  \<^verbatim>\<open>open(path, 'r')\<close>: the handle (here, the bytes it will deliver), or the \<^verbatim>\<open>OSError\<close>
  raised. It succeeds on a readable regular file, and on a FIFO or a device that can be
  opened; it raises on a directory, on an unreadable file, on a socket and on a path
  that names nothing.
\<close>

definition open_r :: "'d world \<Rightarrow> string \<Rightarrow> error + byte list" where
  "open_r w path =
     (case node_at w path of
        Regular readable content \<Rightarrow> if readable then Inr content else Inl PermissionError
      | Directory \<Rightarrow> Inl IsADirectoryError
      | Special opens content \<Rightarrow> if opens then Inr content else Inl OSError
      | Absent \<Rightarrow> Inl FileNotFoundError)"

definition emit :: "nat \<Rightarrow> error + str \<Rightarrow> error + str" where
  "emit c r = (case r of Inl e \<Rightarrow> Inl e | Inr cs \<Rightarrow> Inr (c # cs))"

definition continuation :: "nat \<Rightarrow> bool" where
  "continuation b = (128 \<le> b \<and> b < 192)"

text \<open>
  The strict UTF-8 decoder, on byte values: overlong forms, surrogates, code points
  above \<^verbatim>\<open>U+10FFFF\<close> and truncated sequences raise \<^verbatim>\<open>UnicodeDecodeError\<close>.
\<close>

fun utf_8_decode :: "nat list \<Rightarrow> error + str" where
  "utf_8_decode [] = Inr []"
| "utf_8_decode (b0 # bs) =
     (if b0 < 128 then emit b0 (utf_8_decode bs)
      else if 194 \<le> b0 \<and> b0 < 224 then
        (case bs of
           b1 # r \<Rightarrow>
             if continuation b1
             then emit ((b0 - 192) * 64 + (b1 - 128)) (utf_8_decode r)
             else Inl UnicodeDecodeError
         | _ \<Rightarrow> Inl UnicodeDecodeError)
      else if 224 \<le> b0 \<and> b0 < 240 then
        (case bs of
           b1 # b2 # r \<Rightarrow>
             (let cp = (b0 - 224) * 4096 + (b1 - 128) * 64 + (b2 - 128)
              in if continuation b1 \<and> continuation b2 \<and> 2048 \<le> cp
                    \<and> \<not> (55296 \<le> cp \<and> cp < 57344)
                 then emit cp (utf_8_decode r)
                 else Inl UnicodeDecodeError)
         | _ \<Rightarrow> Inl UnicodeDecodeError)
      else if 240 \<le> b0 \<and> b0 < 245 then
        (case bs of
           b1 # b2 # b3 # r \<Rightarrow>
             (let cp = (b0 - 240) * 262144 + (b1 - 128) * 4096 + (b2 - 128) * 64 + (b3 - 128)
              in if continuation b1 \<and> continuation b2 \<and> continuation b3
                    \<and> 65536 \<le> cp \<and> cp \<le> 1114111
                 then emit cp (utf_8_decode r)
                 else Inl UnicodeDecodeError)
         | _ \<Rightarrow> Inl UnicodeDecodeError)
      else Inl UnicodeDecodeError)"

text \<open>\<^verbatim>\<open>bytes.decode(encoding, 'strict')\<close> for the three encodings.\<close>

definition decode :: "codec \<Rightarrow> byte list \<Rightarrow> error + str" where
  "decode enc bs =
     (case enc of
        UTF_8 \<Rightarrow> utf_8_decode (map unat bs)
      | Latin_1 \<Rightarrow> Inr (map unat bs)
      | ASCII \<Rightarrow>
          if list_all (\<lambda>b. unat b < 128) bs then Inr (map unat bs)
          else Inl UnicodeDecodeError)"

text \<open>
  Universal newlines, the default of text mode (\<^verbatim>\<open>newline=None\<close>): \<^verbatim>\<open>\r\n\<close> and a
  lone \<^verbatim>\<open>\r\<close> are read as \<^verbatim>\<open>\n\<close>.
\<close>

fun universal_newlines :: "str \<Rightarrow> str" where
  "universal_newlines [] = []"
| "universal_newlines [c] = (if c = 13 then [10] else [c])"
| "universal_newlines (c # c' # cs) =
     (if c = 13 \<and> c' = 10 then 10 # universal_newlines cs
      else if c = 13 then 10 # universal_newlines (c' # cs)
      else c # universal_newlines (c' # cs))"

text \<open>\<^verbatim>\<open>f.read()\<close> on the text-mode handle: the whole content, decoded.\<close>

definition read_all :: "'d world \<Rightarrow> byte list \<Rightarrow> error + str" where
  "read_all w content =
     (case decode (encoding w) content of
        Inl e \<Rightarrow> Inl e
      | Inr s \<Rightarrow> Inr (universal_newlines s))"

section \<open>The script\<close>

text \<open>
  \<^verbatim>\<open>json.load(f)\<close> is \<^verbatim>\<open>loads(f.read())\<close>. The result comes with the events of the
  call.
\<close>

definition json_load :: "'d world \<Rightarrow> string \<Rightarrow> byte list \<Rightarrow> (error + 'd) \<times> 'd event list" where
  "json_load w path content =
     (case read_all w content of
        Inl e \<Rightarrow> (Inl e, [])
      | Inr s \<Rightarrow> (loads w s, [ReadAll path]))"

text \<open>
  Lines 20 and 21:
  \<^verbatim>\<open>
        with open(json_, 'r') as f:
            obj = json.load(f)
  \<close>
  When \<^verbatim>\<open>open\<close> raises there is no handle. Otherwise the \<^verbatim>\<open>with\<close> statement closes
  the handle when its body is left, by its end or by an exception.
\<close>

definition load_file :: "'d world \<Rightarrow> string \<Rightarrow> (error + 'd) \<times> 'd event list" where
  "load_file w path =
     (case open_r w path of
        Inl e \<Rightarrow> (Inl e, [])
      | Inr f \<Rightarrow>
          (case json_load w path f of
             (obj, evs) \<Rightarrow> (obj, [Opened path] @ evs @ [Closed path])))"

text \<open>
  Lines 19 to 22, the loop over the discovered paths, with the list \<open>objects\<close> built so
  far and the events so far. An exception leaves the loop at once.
\<close>

fun for_jsons ::
  "'d world \<Rightarrow> string list \<Rightarrow> 'd list \<Rightarrow> 'd event list \<Rightarrow> (error + 'd list) \<times> 'd event list"
where
  "for_jsons w [] objects tr = (Inr objects, tr)"
| "for_jsons w (path # rest) objects tr =
     (case load_file w path of
        (Inl e, evs) \<Rightarrow> (Inl e, tr @ evs)
      | (Inr obj, evs) \<Rightarrow> for_jsons w rest (objects @ [obj]) (tr @ evs))"

text \<open>
  \<^verbatim>\<open>main\<close>, lines 16 to 23: the outcome of the process (the unhandled exception, or
  normal completion) and the events of the run.
\<close>

definition main :: "'d world \<Rightarrow> (error + unit) \<times> 'd event list" where
  "main w =
     (let jsons = glob_glob w ''json/*.json'' in
      case for_jsons w jsons [] [] of
        (Inl e, tr) \<Rightarrow> (Inl e, tr)
      | (Inr objects, tr) \<Rightarrow>
          (case update_raises w objects of
             Some e \<Rightarrow> (Inl e, tr @ [Updated objects])
           | None \<Rightarrow> (Inr (), tr @ [Updated objects])))"

section \<open>Reading a run\<close>

text \<open>The batches handed to \<^verbatim>\<open>Orion.update\<close>, one per call.\<close>

fun updates :: "'d event list \<Rightarrow> 'd list list" where
  "updates [] = []"
| "updates (Updated batch # es) = batch # updates es"
| "updates (e # es) = updates es"

text \<open>The paths opened, in order.\<close>

fun opened :: "'d event list \<Rightarrow> string list" where
  "opened [] = []"
| "opened (Opened p # es) = p # opened es"
| "opened (e # es) = opened es"

text \<open>
  The discipline of the file handles, as an automaton over the events: the argument is
  the handle held, if any, and whether its content has been read. A file is opened
  only when no handle is held, read only while its handle is held and not yet read,
  and closed while held; \<^verbatim>\<open>Orion.update\<close> runs with no handle held; at the end no
  handle is held.
\<close>

fun scoped :: "(string \<times> bool) option \<Rightarrow> 'd event list \<Rightarrow> bool" where
  "scoped h [] = (h = None)"
| "scoped h (Opened p # es) = (h = None \<and> scoped (Some (p, False)) es)"
| "scoped h (ReadAll p # es) = (h = Some (p, False) \<and> scoped (Some (p, True)) es)"
| "scoped h (Closed p # es) = ((h = Some (p, False) \<or> h = Some (p, True)) \<and> scoped None es)"
| "scoped h (Updated batch # es) = (h = None \<and> scoped None es)"

section \<open>Concrete environments\<close>

text \<open>
  \<^verbatim>\<open>json.loads\<close> on the texts used below. On a text that is one string literal
  without escape sequences it returns the characters of the literal, as \<^verbatim>\<open>json.loads\<close>
  does; it rejects every other text, as \<^verbatim>\<open>json.loads\<close> rejects \<^verbatim>\<open>{invalid}\<close>. It
  is not \<^verbatim>\<open>json.loads\<close> on other texts: the theorems hold for every \<open>loads\<close>, and
  this one only fills the field of the concrete environments.
\<close>

definition loads_string_literal :: "str \<Rightarrow> error + str" where
  "loads_string_literal s =
     (case s of
        [] \<Rightarrow> Inl JSONDecodeError
      | q # r \<Rightarrow>
          if q = 34 \<and> r \<noteq> [] \<and> last r = 34
             \<and> list_all (\<lambda>c. 32 \<le> c \<and> c \<noteq> 34 \<and> c \<noteq> 92) (butlast r)
          then Inr (butlast r)
          else Inl JSONDecodeError)"

text \<open>
  A working directory whose only entry is the directory \<^verbatim>\<open>json\<close>, with the given
  entries in listing order, under the given locale encoding; \<^verbatim>\<open>Orion.update\<close>
  returns normally.
\<close>

definition json_dir :: "(string \<times> node) list \<Rightarrow> codec \<Rightarrow> str world" where
  "json_dir entries enc =
     \<lparr>scandir = (\<lambda>d. if d = ''json'' then Inr (map fst entries) else Inl FileNotFoundError),
      node_at = (\<lambda>p. if p = ''json'' then Directory
                      else case map_of (map (\<lambda>(n, x). (''json/'' @ n, x)) entries) p of
                             Some x \<Rightarrow> x
                           | None \<Rightarrow> Absent),
      encoding = enc,
      loads = loads_string_literal,
      update_raises = (\<lambda>batch. None),
      argv = [],
      environ = (\<lambda>v. None)\<rparr>"

text \<open>A working directory with no entry at all.\<close>

definition no_json_dir :: "str world" where
  "no_json_dir =
     \<lparr>scandir = (\<lambda>d. Inl FileNotFoundError),
      node_at = (\<lambda>p. Absent),
      encoding = UTF_8,
      loads = loads_string_literal,
      update_raises = (\<lambda>batch. None),
      argv = [],
      environ = (\<lambda>v. None)\<rparr>"

text \<open>
  The bytes of \<^verbatim>\<open>"1"\<close>, of \<^verbatim>\<open>"2"\<close>, of \<^verbatim>\<open>{invalid}\<close> and, in UTF-8, of the string literal
  that holds the one character \<^verbatim>\<open>U+00E9\<close> (e with acute accent).
\<close>

definition one_json :: "byte list" where
  "one_json = [0x22, 0x31, 0x22]"

definition two_json :: "byte list" where
  "two_json = [0x22, 0x32, 0x22]"

definition invalid_json :: "byte list" where
  "invalid_json = [0x7B, 0x69, 0x6E, 0x76, 0x61, 0x6C, 0x69, 0x64, 0x7D]"

definition e_acute_json :: "byte list" where
  "e_acute_json = [0x22, 0xC3, 0xA9, 0x22]"

text \<open>Two well-formed files, \<^verbatim>\<open>a.json\<close> and \<^verbatim>\<open>b.json\<close>, in a UTF-8 locale.\<close>

definition two_files :: "str world" where
  "two_files =
     json_dir [(''a.json'', Regular True one_json), (''b.json'', Regular True two_json)] UTF_8"

text \<open>The same two files with \<^verbatim>\<open>bad.json\<close>, holding \<^verbatim>\<open>{invalid}\<close>, listed between them.\<close>

definition one_bad_file :: "str world" where
  "one_bad_file =
     json_dir
       [(''a.json'', Regular True one_json),
        (''bad.json'', Regular True invalid_json),
        (''b.json'', Regular True two_json)] UTF_8"

text \<open>An empty directory \<^verbatim>\<open>json\<close>.\<close>

definition empty_json_dir :: "str world" where
  "empty_json_dir = json_dir [] UTF_8"

text \<open>One file holding a string literal with a non-ASCII character, under three locales.\<close>

definition e_acute_utf_8 :: "str world" where
  "e_acute_utf_8 = json_dir [(''a.json'', Regular True e_acute_json)] UTF_8"

definition e_acute_latin_1 :: "str world" where
  "e_acute_latin_1 = json_dir [(''a.json'', Regular True e_acute_json)] Latin_1"

definition e_acute_ascii :: "str world" where
  "e_acute_ascii = json_dir [(''a.json'', Regular True e_acute_json)] ASCII"

text \<open>A subdirectory \<^verbatim>\<open>sub.json\<close> listed before a well-formed file.\<close>

definition matched_subdir :: "str world" where
  "matched_subdir =
     json_dir [(''sub.json'', Directory), (''a.json'', Regular True one_json)] UTF_8"

text \<open>A subdirectory whose name starts with a dot, \<^verbatim>\<open>.cache.json\<close>.\<close>

definition hidden_subdir :: "str world" where
  "hidden_subdir = json_dir [(''.cache.json'', Directory)] UTF_8"

text \<open>A FIFO \<^verbatim>\<open>pipe.json\<close> into which another process writes \<^verbatim>\<open>"1"\<close>.\<close>

definition fifo_entry :: "str world" where
  "fifo_entry = json_dir [(''pipe.json'', Special True one_json)] UTF_8"

text \<open>A directory \<^verbatim>\<open>json\<close> with names of several shapes.\<close>

definition mixed_names :: "str world" where
  "mixed_names =
     json_dir
       [(''a.json'', Regular True one_json),
        (''.b.json'', Regular True two_json),
        (''sub.json'', Directory),
        (''c.JSON'', Regular True one_json),
        (''notes.txt'', Regular True one_json),
        (''d.json.bak'', Regular True two_json),
        (''json'', Regular True one_json)] UTF_8"

text \<open>
  The two well-formed files again, started with a command-line argument and with a
  broker that refuses the update.
\<close>

definition two_files_broker_down :: "str world" where
  "two_files_broker_down =
     two_files\<lparr>update_raises := (\<lambda>batch. Some BrokerError), argv := [''--verbose'']\<rparr>"

section \<open>Properties of the collaborators and of the loop\<close>

lemma path_split_pattern: "path_split ''json/*.json'' = (''json'', ''*.json'')"
  by (simp add: path_split_def)

lemma fnmatch_literal:
  "CHR ''*'' \<notin> set ps \<Longrightarrow> CHR ''?'' \<notin> set ps \<Longrightarrow> fnmatch ps n = (n = ps)"
proof (induction ps arbitrary: n)
  case Nil
  then show ?case by (cases n) simp_all
next
  case (Cons p ps)
  then show ?case by (cases n) auto
qed

lemma fnmatch_star:
  "CHR ''*'' \<notin> set ps \<Longrightarrow> CHR ''?'' \<notin> set ps \<Longrightarrow> ps \<noteq> [] \<Longrightarrow>
   fnmatch (CHR ''*'' # ps) n = (\<exists>stem. n = stem @ ps)"
proof (induction n)
  case Nil
  then show ?case by (simp add: fnmatch_literal)
next
  case (Cons c cs)
  have "fnmatch (CHR ''*'' # ps) (c # cs) = (c # cs = ps \<or> (\<exists>stem. cs = stem @ ps))"
    using Cons by (simp add: fnmatch_literal)
  also have "\<dots> = (\<exists>stem. c # cs = stem @ ps)"
    using Cons.prems(3) by (auto simp: Cons_eq_append_conv)
  finally show ?case .
qed

lemma fnmatch_pattern: "fnmatch ''*.json'' n = (\<exists>stem. n = stem @ ''.json'')"
  using fnmatch_star [of "''.json''" n] by simp

lemma glob_glob_pattern:
  "glob_glob w ''json/*.json'' =
     map (path_join ''json'')
       (filter (\<lambda>n. \<not> ishidden n \<and> (\<exists>stem. n = stem @ ''.json'')) (listdir w ''json''))"
  by (simp add: glob_glob_def path_split_pattern glob1_def ishidden_def fnmatch_pattern
      del: fnmatch.simps)

lemma load_file_regular:
  "node_at w p = Regular True content \<Longrightarrow>
   fst (load_file w p) =
     (case decode (encoding w) content of
        Inl e \<Rightarrow> Inl e
      | Inr t \<Rightarrow> loads w (universal_newlines t))"
  by (simp add: load_file_def open_r_def json_load_def read_all_def split: sum.splits)

lemma load_file_events:
  "fst (load_file w p) = Inr d \<Longrightarrow> snd (load_file w p) = [Opened p, ReadAll p, Closed p]"
  by (auto simp: load_file_def open_r_def json_load_def split: node.splits sum.splits if_splits)

lemma for_jsons_all_loaded:
  "list_all2 (\<lambda>p d. fst (load_file w p) = Inr d) ps ds \<Longrightarrow>
   for_jsons w ps objects tr =
     (Inr (objects @ ds), tr @ concat (map (\<lambda>p. [Opened p, ReadAll p, Closed p]) ps))"
proof (induction ps ds arbitrary: objects tr rule: list_all2_induct)
  case Nil
  then show ?case by simp
next
  case (Cons p ps d ds)
  obtain evs where lf: "load_file w p = (Inr d, evs)"
    using Cons.hyps(1) by (cases "load_file w p") simp
  have "evs = [Opened p, ReadAll p, Closed p]"
    using load_file_events [of w p d] lf by simp
  then show ?case using Cons.IH lf by simp
qed

lemma for_jsons_first_failure:
  "list_all2 (\<lambda>p d. fst (load_file w p) = Inr d) pre ds \<Longrightarrow> fst (load_file w p) = Inl e \<Longrightarrow>
   for_jsons w (pre @ p # post) objects tr =
     (Inl e, tr @ concat (map (\<lambda>p. [Opened p, ReadAll p, Closed p]) pre) @ snd (load_file w p))"
proof (induction pre ds arbitrary: objects tr rule: list_all2_induct)
  case Nil
  then show ?case by (cases "load_file w p") simp
next
  case (Cons q qs d ds)
  obtain evs where lf: "load_file w q = (Inr d, evs)"
    using Cons.hyps(1) by (cases "load_file w q") simp
  have "evs = [Opened q, ReadAll q, Closed q]"
    using load_file_events [of w q d] lf by simp
  then show ?case using Cons.IH [OF Cons.prems] lf by simp
qed

lemma list_all2_choice:
  "\<forall>p\<in>set ps. \<exists>d. P p d \<Longrightarrow> \<exists>ds. list_all2 P ps ds"
proof (induction ps)
  case Nil
  then show ?case by simp
next
  case (Cons p ps)
  then obtain d ds where "P p d" "list_all2 P ps ds" by auto
  then have "list_all2 P (p # ps) (d # ds)" by simp
  then show ?case by blast
qed

lemma updates_append: "updates (es @ fs) = updates es @ updates fs"
  by (induction es rule: updates.induct) simp_all

lemma opened_append: "opened (es @ fs) = opened es @ opened fs"
  by (induction es rule: opened.induct) simp_all

lemma updates_visits: "updates (concat (map (\<lambda>p. [Opened p, ReadAll p, Closed p]) ps)) = []"
  by (induction ps) simp_all

lemma opened_visits: "opened (concat (map (\<lambda>p. [Opened p, ReadAll p, Closed p]) ps)) = ps"
  by (induction ps) simp_all

lemma main_all_loaded:
  assumes "list_all2 (\<lambda>p d. fst (load_file w p) = Inr d) (glob_glob w ''json/*.json'') batch"
  shows "snd (main w) =
           concat (map (\<lambda>p. [Opened p, ReadAll p, Closed p]) (glob_glob w ''json/*.json''))
           @ [Updated batch]"
    and "fst (main w) = (case update_raises w batch of Some e \<Rightarrow> Inl e | None \<Rightarrow> Inr ())"
  using for_jsons_all_loaded [OF assms, of "[]" "[]"]
  by (simp_all add: main_def split: option.splits)

lemma main_first_failure:
  assumes "glob_glob w ''json/*.json'' = pre @ p # post"
    and "list_all2 (\<lambda>p d. fst (load_file w p) = Inr d) pre ds"
    and "fst (load_file w p) = Inl e"
  shows "main w =
           (Inl e, concat (map (\<lambda>p. [Opened p, ReadAll p, Closed p]) pre) @ snd (load_file w p))"
  using for_jsons_first_failure [OF assms(2,3), of post "[]" "[]"] assms(1)
  by (simp add: main_def)

lemma load_file_failure_events:
  "fst (load_file w p) = Inl e \<Longrightarrow>
   updates (snd (load_file w p)) = [] \<and>
   opened (snd (load_file w p)) = (case open_r w p of Inl e' \<Rightarrow> [] | Inr f \<Rightarrow> [p])"
  by (auto simp: load_file_def json_load_def split: sum.splits)

lemma glob_glob_unlisted: "scandir w ''json'' = Inl e \<Longrightarrow> glob_glob w ''json/*.json'' = []"
  by (simp add: glob_glob_pattern listdir_def)

lemma glob_glob_no_entry: "scandir w ''json'' = Inr [] \<Longrightarrow> glob_glob w ''json/*.json'' = []"
  by (simp add: glob_glob_pattern listdir_def)

lemma load_file_opened:
  "opened (snd (load_file w p)) = (case open_r w p of Inl e \<Rightarrow> [] | Inr f \<Rightarrow> [p])"
  by (simp add: load_file_def json_load_def split: sum.splits)

lemma for_jsons_opened:
  "\<exists>rest. opened tr @ ps = opened (snd (for_jsons w ps objects tr)) @ rest"
proof (induction ps arbitrary: objects tr)
  case Nil
  then show ?case by simp
next
  case (Cons p ps)
  obtain r evs where lf: "load_file w p = (r, evs)" by (cases "load_file w p")
  have ev: "opened evs = (case open_r w p of Inl e \<Rightarrow> [] | Inr f \<Rightarrow> [p])"
    using load_file_opened [of w p] lf by simp
  show ?case
  proof (cases r)
    case (Inl e)
    then show ?thesis using lf ev by (simp add: opened_append split: sum.splits)
  next
    case (Inr obj)
    then have "fst (load_file w p) = Inr obj" using lf by simp
    then have "evs = [Opened p, ReadAll p, Closed p]"
      using load_file_events [of w p obj] lf by simp
    then show ?thesis
      using Cons.IH [where objects = "objects @ [obj]" and tr = "tr @ evs"] lf Inr
      by (simp add: opened_append)
  qed
qed

lemma main_raised:
  "for_jsons w (glob_glob w ''json/*.json'') [] [] = (Inl e, tr) \<Longrightarrow> main w = (Inl e, tr)"
  by (simp add: main_def)

lemma main_updated:
  "for_jsons w (glob_glob w ''json/*.json'') [] [] = (Inr objects, tr) \<Longrightarrow>
   snd (main w) = tr @ [Updated objects]"
  by (simp add: main_def split: option.splits)

lemma main_opened: "\<exists>rest. glob_glob w ''json/*.json'' = opened (snd (main w)) @ rest"
proof -
  obtain r tr where fj: "for_jsons w (glob_glob w ''json/*.json'') [] [] = (r, tr)"
    by (cases "for_jsons w (glob_glob w ''json/*.json'') [] []")
  have "\<exists>rest. glob_glob w ''json/*.json'' = opened tr @ rest"
    using for_jsons_opened [of "[]" "glob_glob w ''json/*.json''" w "[]"] fj by simp
  then have g: "\<exists>rest. glob_glob w ''json/*.json'' = opened tr @ rest" .
  show ?thesis
  proof (cases r)
    case (Inl e)
    then show ?thesis using g fj main_raised [of w e tr] by simp
  next
    case (Inr objects)
    then show ?thesis using g fj main_updated [of w objects tr] by (simp add: opened_append)
  qed
qed

lemma scoped_append: "scoped h es \<Longrightarrow> scoped None fs \<Longrightarrow> scoped h (es @ fs)"
  by (induction h es rule: scoped.induct) simp_all

lemma load_file_scoped: "scoped None (snd (load_file w p))"
  by (simp add: load_file_def json_load_def split: sum.splits)

lemma for_jsons_scoped: "scoped None tr \<Longrightarrow> scoped None (snd (for_jsons w ps objects tr))"
proof (induction ps arbitrary: objects tr)
  case Nil
  then show ?case by simp
next
  case (Cons p ps)
  obtain r evs where lf: "load_file w p = (r, evs)" by (cases "load_file w p")
  have "scoped None evs" using load_file_scoped [of w p] lf by simp
  then have "scoped None (tr @ evs)" using Cons.prems by (simp add: scoped_append)
  then show ?case using Cons.IH lf by (cases r) simp_all
qed

lemma json_load_cong:
  assumes "encoding w1 = encoding w2" and "loads w1 = loads w2"
  shows "json_load w1 p f = json_load w2 p f"
  unfolding json_load_def read_all_def assms by (rule refl)

lemma load_file_cong:
  assumes "node_at w1 p = node_at w2 p" and "encoding w1 = encoding w2"
    and "loads w1 = loads w2"
  shows "load_file w1 p = load_file w2 p"
  unfolding load_file_def open_r_def json_load_cong [OF assms(2,3)] assms(1) by (rule refl)

lemma for_jsons_cong:
  assumes "encoding w1 = encoding w2" and "loads w1 = loads w2"
  shows "\<forall>p\<in>set ps. node_at w1 p = node_at w2 p \<Longrightarrow>
         for_jsons w1 ps objects tr = for_jsons w2 ps objects tr"
proof (induction ps arbitrary: objects tr)
  case Nil
  show ?case by simp
next
  case (Cons p ps)
  have lf: "load_file w1 p = load_file w2 p"
    using Cons.prems assms by (intro load_file_cong) simp_all
  have rest: "\<forall>q\<in>set ps. node_at w1 q = node_at w2 q"
    using Cons.prems by simp
  show ?case
    unfolding for_jsons.simps lf Cons.IH [OF rest] by (rule refl)
qed

lemma main_aborts_at_first_failure:
  assumes "p \<in> set (glob_glob w ''json/*.json'')" and "fst (load_file w p) = Inl e"
  shows "\<exists>pre q post e'.
           glob_glob w ''json/*.json'' = pre @ q # post \<and>
           (\<forall>r\<in>set pre. \<exists>d. fst (load_file w r) = Inr d) \<and>
           fst (load_file w q) = Inl e' \<and>
           fst (main w) = Inl e' \<and>
           updates (snd (main w)) = []"
proof -
  let ?fails = "\<lambda>x. \<exists>e. fst (load_file w x) = Inl e"
  have "\<exists>x\<in>set (glob_glob w ''json/*.json''). ?fails x"
    using assms by (intro bexI [of _ p] exI [of _ e])
  then have "\<exists>pre q post. glob_glob w ''json/*.json'' = pre @ q # post \<and> ?fails q
               \<and> (\<forall>r\<in>set pre. \<not> ?fails r)"
    by (rule split_list_first_prop)
  then obtain pre q post
    where sp: "glob_glob w ''json/*.json'' = pre @ q # post"
      and q: "?fails q"
      and pre: "\<forall>r\<in>set pre. \<not> ?fails r"
    by blast
  from q obtain e' where e': "fst (load_file w q) = Inl e'" ..
  have ok: "\<forall>r\<in>set pre. \<exists>d. fst (load_file w r) = Inr d"
  proof
    fix r assume "r \<in> set pre"
    with pre have "\<not> ?fails r" ..
    then show "\<exists>d. fst (load_file w r) = Inr d" by (cases "fst (load_file w r)") simp_all
  qed
  then have "\<exists>ds. list_all2 (\<lambda>p d. fst (load_file w p) = Inr d) pre ds"
    by (rule list_all2_choice)
  then obtain ds where ds: "list_all2 (\<lambda>p d. fst (load_file w p) = Inr d) pre ds" ..
  note m = main_first_failure [OF sp ds e']
  have 1: "fst (main w) = Inl e'" by (simp add: m)
  have 2: "updates (snd (main w)) = []"
    using load_file_failure_events [OF e'] by (simp add: m updates_append updates_visits)
  show ?thesis
  proof (intro exI conjI)
    show "glob_glob w ''json/*.json'' = pre @ q # post" by (fact sp)
    show "\<forall>r\<in>set pre. \<exists>d. fst (load_file w r) = Inr d" by (fact ok)
    show "fst (load_file w q) = Inl e'" by (fact e')
    show "fst (main w) = Inl e'" by (fact 1)
    show "updates (snd (main w)) = []" by (fact 2)
  qed
qed

lemma open_r_fails_iff:
  "(\<exists>e. open_r w p = Inl e) =
     (case node_at w p of
        Regular readable content \<Rightarrow> \<not> readable
      | Directory \<Rightarrow> True
      | Special opens content \<Rightarrow> \<not> opens
      | Absent \<Rightarrow> True)"
  by (simp add: open_r_def split: node.splits)

lemma load_file_open_fails: "open_r w p = Inl e \<Longrightarrow> fst (load_file w p) = Inl e"
  by (simp add: load_file_def)

section \<open>The claims\<close>

text \<open>
  Claim C1, as the script has it. Whenever every discovered path names a readable
  regular file whose content, decoded in the encoding that \<^verbatim>\<open>open\<close> applies (that of
  the locale), is a text \<^verbatim>\<open>json.loads\<close> accepts, \<^verbatim>\<open>Orion.update\<close> is called with one
  batch, and that batch has one document per discovered path, in discovery order, each
  being the value \<^verbatim>\<open>json.loads\<close> returns on the text decoded from that file. Where
  the encoding is UTF-8, that text is the UTF-8 decoding of the content.
\<close>

theorem batch_one_document_per_file:
  assumes "\<forall>p\<in>set (glob_glob w ''json/*.json'').
             \<exists>content t d. node_at w p = Regular True content
               \<and> decode (encoding w) content = Inr t
               \<and> loads w (universal_newlines t) = Inr d"
  shows "\<exists>batch. updates (snd (main w)) = [batch] \<and>
           list_all2
             (\<lambda>p d. \<exists>content t. node_at w p = Regular True content
                \<and> decode (encoding w) content = Inr t
                \<and> loads w (universal_newlines t) = Inr d)
             (glob_glob w ''json/*.json'') batch \<and>
           (encoding w = UTF_8 \<longrightarrow>
              list_all2
                (\<lambda>p d. \<exists>content t. node_at w p = Regular True content
                   \<and> utf_8_decode (map unat content) = Inr t
                   \<and> loads w (universal_newlines t) = Inr d)
                (glob_glob w ''json/*.json'') batch)"
proof -
  let ?parsed = "\<lambda>p d. \<exists>content t. node_at w p = Regular True content
                \<and> decode (encoding w) content = Inr t
                \<and> loads w (universal_newlines t) = Inr d"
  have loaded: "fst (load_file w p) = Inr d" if "?parsed p d" for p d
  proof -
    from that obtain content t where "node_at w p = Regular True content"
      and "decode (encoding w) content = Inr t" and "loads w (universal_newlines t) = Inr d"
      by blast
    then show ?thesis by (simp add: load_file_regular)
  qed
  have "\<forall>p\<in>set (glob_glob w ''json/*.json''). \<exists>d. fst (load_file w p) = Inr d"
  proof
    fix p assume "p \<in> set (glob_glob w ''json/*.json'')"
    with assms obtain d where "?parsed p d" by blast
    then have "fst (load_file w p) = Inr d" by (rule loaded)
    then show "\<exists>d. fst (load_file w p) = Inr d" ..
  qed
  then have "\<exists>ds. list_all2 (\<lambda>p d. fst (load_file w p) = Inr d) (glob_glob w ''json/*.json'') ds"
    by (rule list_all2_choice)
  then obtain batch
    where b: "list_all2 (\<lambda>p d. fst (load_file w p) = Inr d) (glob_glob w ''json/*.json'') batch"
    ..
  have u: "updates (snd (main w)) = [batch]"
    by (simp add: main_all_loaded(1) [OF b] updates_append updates_visits)
  have parsed: "list_all2 ?parsed (glob_glob w ''json/*.json'') batch"
    using b
  proof (rule list.rel_mono_strong)
    fix p d
    assume "p \<in> set (glob_glob w ''json/*.json'')" and d: "fst (load_file w p) = Inr d"
    with assms obtain d' where d': "?parsed p d'" by blast
    then have "fst (load_file w p) = Inr d'" by (rule loaded)
    with d have "d' = d" by simp
    with d' show "?parsed p d" by simp
  qed
  have utf: "list_all2
                (\<lambda>p d. \<exists>content t. node_at w p = Regular True content
                   \<and> utf_8_decode (map unat content) = Inr t
                   \<and> loads w (universal_newlines t) = Inr d)
                (glob_glob w ''json/*.json'') batch" if "encoding w = UTF_8"
    using parsed that by (simp add: decode_def)
  show ?thesis
  proof (intro exI conjI impI)
    show "updates (snd (main w)) = [batch]" by (fact u)
    show "list_all2 ?parsed (glob_glob w ''json/*.json'') batch" by (fact parsed)
    show "list_all2
                (\<lambda>p d. \<exists>content t. node_at w p = Regular True content
                   \<and> utf_8_decode (map unat content) = Inr t
                   \<and> loads w (universal_newlines t) = Inr d)
                (glob_glob w ''json/*.json'') batch" if "encoding w = UTF_8"
      using that by (rule utf)
  qed
qed

text \<open>Claim C1 at a concrete environment.\<close>

theorem batch_one_document_per_file_witness:
  "glob_glob two_files ''json/*.json'' = [''json/a.json'', ''json/b.json'']
   \<and> encoding two_files = UTF_8
   \<and> updates (snd (main two_files)) = [[[49], [50]]]
   \<and> (\<exists>batch. updates (snd (main two_files)) = [batch] \<and>
           list_all2
             (\<lambda>p d. \<exists>content t. node_at two_files p = Regular True content
                \<and> decode (encoding two_files) content = Inr t
                \<and> loads two_files (universal_newlines t) = Inr d)
             (glob_glob two_files ''json/*.json'') batch \<and>
           list_all2
             (\<lambda>p d. \<exists>content t. node_at two_files p = Regular True content
                \<and> utf_8_decode (map unat content) = Inr t
                \<and> loads two_files (universal_newlines t) = Inr d)
             (glob_glob two_files ''json/*.json'') batch)"
proof -
  have g: "glob_glob two_files ''json/*.json'' = [''json/a.json'', ''json/b.json'']"
    by code_simp
  have enc: "encoding two_files = UTF_8"
    by code_simp
  have a: "node_at two_files ''json/a.json'' = Regular True one_json
           \<and> decode (encoding two_files) one_json = Inr [34, 49, 34]
           \<and> loads two_files (universal_newlines [34, 49, 34]) = Inr [49]"
    by code_simp
  have b: "node_at two_files ''json/b.json'' = Regular True two_json
           \<and> decode (encoding two_files) two_json = Inr [34, 50, 34]
           \<and> loads two_files (universal_newlines [34, 50, 34]) = Inr [50]"
    by code_simp
  have h: "\<forall>p\<in>set (glob_glob two_files ''json/*.json'').
             \<exists>content t d. node_at two_files p = Regular True content
               \<and> decode (encoding two_files) content = Inr t
               \<and> loads two_files (universal_newlines t) = Inr d"
    using a b by (simp add: g)
  have u: "updates (snd (main two_files)) = [[[49], [50]]]"
    by code_simp
  have t: "\<exists>batch. updates (snd (main two_files)) = [batch] \<and>
           list_all2
             (\<lambda>p d. \<exists>content t. node_at two_files p = Regular True content
                \<and> decode (encoding two_files) content = Inr t
                \<and> loads two_files (universal_newlines t) = Inr d)
             (glob_glob two_files ''json/*.json'') batch \<and>
           list_all2
             (\<lambda>p d. \<exists>content t. node_at two_files p = Regular True content
                \<and> utf_8_decode (map unat content) = Inr t
                \<and> loads two_files (universal_newlines t) = Inr d)
             (glob_glob two_files ''json/*.json'') batch"
    using batch_one_document_per_file [OF h] enc by blast
  show ?thesis
    by (rule conjI [OF g conjI [OF enc conjI [OF u t]]])
qed

text \<open>
  Claim C1 as stated, with well-formed JSON and the value parsed from a file's content
  taken independently of the locale, fails outside a UTF-8 locale. The one discovered
  file holds the bytes \<^verbatim>\<open>22 C3 A9 22\<close>, well-formed JSON whose value is the string of
  the one character \<^verbatim>\<open>U+00E9\<close>. In a Latin-1 locale the batch uploaded holds the string
  \<^verbatim>\<open>U+00C3 U+00A9\<close> instead; in an ASCII locale the run ends with
  \<^verbatim>\<open>UnicodeDecodeError\<close> and no batch is uploaded.
\<close>

theorem batch_not_of_utf_8_values:
  "glob_glob e_acute_latin_1 ''json/*.json'' = [''json/a.json'']
   \<and> node_at e_acute_latin_1 ''json/a.json'' = Regular True e_acute_json
   \<and> utf_8_decode (map unat e_acute_json) = Inr [34, 233, 34]
   \<and> loads e_acute_latin_1 [34, 233, 34] = Inr [233]
   \<and> updates (snd (main e_acute_latin_1)) = [[[195, 169]]]
   \<and> glob_glob e_acute_ascii ''json/*.json'' = [''json/a.json'']
   \<and> node_at e_acute_ascii ''json/a.json'' = Regular True e_acute_json
   \<and> loads e_acute_ascii [34, 233, 34] = Inr [233]
   \<and> fst (main e_acute_ascii) = Inl UnicodeDecodeError
   \<and> updates (snd (main e_acute_ascii)) = []"
  by code_simp

text \<open>
  Claim C2. When some discovered file fails to open or to parse, the run ends with the
  error of the first such file \<open>q\<close>: \<^verbatim>\<open>main\<close> returns that error, \<^verbatim>\<open>Orion.update\<close> is
  never called, and the files opened are those listed before \<open>q\<close>, and \<open>q\<close> itself
  when its \<^verbatim>\<open>open\<close> succeeded; none of the files listed after \<open>q\<close> is opened.
\<close>

theorem failure_aborts_before_update:
  assumes "p \<in> set (glob_glob w ''json/*.json'')" and "fst (load_file w p) = Inl e'"
  shows "\<exists>pre q post e.
           glob_glob w ''json/*.json'' = pre @ q # post \<and>
           (\<forall>r\<in>set pre. \<exists>d. fst (load_file w r) = Inr d) \<and>
           fst (load_file w q) = Inl e \<and>
           fst (main w) = Inl e \<and>
           updates (snd (main w)) = [] \<and>
           opened (snd (main w)) = pre @ (case open_r w q of Inl e'' \<Rightarrow> [] | Inr f \<Rightarrow> [q])"
proof -
  let ?fails = "\<lambda>x. \<exists>e. fst (load_file w x) = Inl e"
  have "\<exists>x\<in>set (glob_glob w ''json/*.json''). ?fails x"
    using assms by (intro bexI [of _ p] exI [of _ e'])
  then have "\<exists>pre q post. glob_glob w ''json/*.json'' = pre @ q # post \<and> ?fails q
               \<and> (\<forall>r\<in>set pre. \<not> ?fails r)"
    by (rule split_list_first_prop)
  then obtain pre q post
    where sp: "glob_glob w ''json/*.json'' = pre @ q # post"
      and q: "?fails q"
      and pre: "\<forall>r\<in>set pre. \<not> ?fails r"
    by blast
  from q obtain e where e: "fst (load_file w q) = Inl e" ..
  have ok: "\<forall>r\<in>set pre. \<exists>d. fst (load_file w r) = Inr d"
  proof
    fix r assume "r \<in> set pre"
    with pre have "\<not> ?fails r" ..
    then show "\<exists>d. fst (load_file w r) = Inr d" by (cases "fst (load_file w r)") simp_all
  qed
  then have "\<exists>ds. list_all2 (\<lambda>p d. fst (load_file w p) = Inr d) pre ds"
    by (rule list_all2_choice)
  then obtain ds where ds: "list_all2 (\<lambda>p d. fst (load_file w p) = Inr d) pre ds" ..
  note m = main_first_failure [OF sp ds e]
  note ev = load_file_failure_events [OF e]
  have 1: "fst (main w) = Inl e" by (simp add: m)
  have 2: "updates (snd (main w)) = []"
    using ev by (simp add: m updates_append updates_visits)
  have 3: "opened (snd (main w)) = pre @ (case open_r w q of Inl e'' \<Rightarrow> [] | Inr f \<Rightarrow> [q])"
    using ev by (simp add: m opened_append opened_visits)
  show ?thesis
  proof (intro exI conjI)
    show "glob_glob w ''json/*.json'' = pre @ q # post" by (fact sp)
    show "\<forall>r\<in>set pre. \<exists>d. fst (load_file w r) = Inr d" by (fact ok)
    show "fst (load_file w q) = Inl e" by (fact e)
    show "fst (main w) = Inl e" by (fact 1)
    show "updates (snd (main w)) = []" by (fact 2)
    show "opened (snd (main w)) = pre @ (case open_r w q of Inl e'' \<Rightarrow> [] | Inr f \<Rightarrow> [q])"
      by (fact 3)
  qed
qed

text \<open>Claim C2 at a concrete environment.\<close>

theorem failure_aborts_before_update_witness:
  "''json/bad.json'' \<in> set (glob_glob one_bad_file ''json/*.json'')
   \<and> fst (load_file one_bad_file ''json/bad.json'') = Inl JSONDecodeError
   \<and> main one_bad_file =
       (Inl JSONDecodeError,
        [Opened ''json/a.json'', ReadAll ''json/a.json'', Closed ''json/a.json'',
         Opened ''json/bad.json'', ReadAll ''json/bad.json'', Closed ''json/bad.json''])
   \<and> (\<exists>pre q post e.
           glob_glob one_bad_file ''json/*.json'' = pre @ q # post \<and>
           (\<forall>r\<in>set pre. \<exists>d. fst (load_file one_bad_file r) = Inr d) \<and>
           fst (load_file one_bad_file q) = Inl e \<and>
           fst (main one_bad_file) = Inl e \<and>
           updates (snd (main one_bad_file)) = [] \<and>
           opened (snd (main one_bad_file)) =
             pre @ (case open_r one_bad_file q of Inl e'' \<Rightarrow> [] | Inr f \<Rightarrow> [q]))"
proof -
  have m: "''json/bad.json'' \<in> set (glob_glob one_bad_file ''json/*.json'')"
    by code_simp
  have f: "fst (load_file one_bad_file ''json/bad.json'') = Inl JSONDecodeError"
    by code_simp
  have r: "main one_bad_file =
       (Inl JSONDecodeError,
        [Opened ''json/a.json'', ReadAll ''json/a.json'', Closed ''json/a.json'',
         Opened ''json/bad.json'', ReadAll ''json/bad.json'', Closed ''json/bad.json''])"
    by code_simp
  show ?thesis
    by (rule conjI [OF m conjI [OF f conjI [OF r failure_aborts_before_update [OF m f]]]])
qed

text \<open>
  Claim C3. When the directory \<^verbatim>\<open>json\<close> is empty, or cannot be listed, or discovery
  yields no path for any other reason, the only event of the run is one call of
  \<^verbatim>\<open>Orion.update\<close> with the empty batch, and the outcome of \<^verbatim>\<open>main\<close> is the outcome
  of that call: nothing before it raises.
\<close>

theorem empty_discovery_updates_empty_batch:
  assumes "scandir w ''json'' = Inr [] \<or> scandir w ''json'' = Inl e
           \<or> glob_glob w ''json/*.json'' = []"
  shows "snd (main w) = [Updated []] \<and>
         fst (main w) = (case update_raises w [] of Some e \<Rightarrow> Inl e | None \<Rightarrow> Inr ())"
proof -
  have "glob_glob w ''json/*.json'' = []"
    using assms glob_glob_unlisted glob_glob_no_entry by blast
  then show ?thesis by (simp add: main_def split: option.splits)
qed

text \<open>Claim C3 at a concrete environment.\<close>

theorem empty_discovery_updates_empty_batch_witness:
  "scandir empty_json_dir ''json'' = Inr []
   \<and> scandir no_json_dir ''json'' = Inl FileNotFoundError
   \<and> main empty_json_dir = (Inr (), [Updated []])
   \<and> (snd (main empty_json_dir) = [Updated []] \<and>
       fst (main empty_json_dir) =
         (case update_raises empty_json_dir [] of Some e \<Rightarrow> Inl e | None \<Rightarrow> Inr ()))
   \<and> (snd (main no_json_dir) = [Updated []] \<and>
       fst (main no_json_dir) =
         (case update_raises no_json_dir [] of Some e \<Rightarrow> Inl e | None \<Rightarrow> Inr ()))"
proof -
  have h: "scandir empty_json_dir ''json'' = Inr []"
    by code_simp
  have h': "scandir no_json_dir ''json'' = Inl FileNotFoundError"
    by code_simp
  have r: "main empty_json_dir = (Inr (), [Updated []])"
    by code_simp
  show ?thesis
    by (rule conjI [OF h conjI [OF h' conjI [OF r
          conjI [OF empty_discovery_updates_empty_batch [OF disjI1 [OF h]] empty_discovery_updates_empty_batch [OF disjI2 [OF disjI1 [OF h']]]]]]])
qed

text \<open>
  Claim C4. When every discovered file loads, the loop ends with the batch of all
  documents after every file has been opened, read and closed, and the run is those
  events followed by exactly one call of \<^verbatim>\<open>Orion.update\<close>, on that batch, which has
  as many documents as there are discovered paths.
\<close>

theorem update_once_after_all_files:
  assumes "\<forall>p\<in>set (glob_glob w ''json/*.json''). \<exists>d. fst (load_file w p) = Inr d"
  shows "\<exists>batch.
           for_jsons w (glob_glob w ''json/*.json'') [] [] =
             (Inr batch,
              concat (map (\<lambda>p. [Opened p, ReadAll p, Closed p]) (glob_glob w ''json/*.json''))) \<and>
           snd (main w) =
             concat (map (\<lambda>p. [Opened p, ReadAll p, Closed p]) (glob_glob w ''json/*.json''))
             @ [Updated batch] \<and>
           length batch = length (glob_glob w ''json/*.json'')"
proof -
  have "\<exists>ds. list_all2 (\<lambda>p d. fst (load_file w p) = Inr d) (glob_glob w ''json/*.json'') ds"
    using assms by (rule list_all2_choice)
  then obtain batch
    where b: "list_all2 (\<lambda>p d. fst (load_file w p) = Inr d) (glob_glob w ''json/*.json'') batch"
    ..
  have "for_jsons w (glob_glob w ''json/*.json'') [] [] =
             (Inr batch,
              concat (map (\<lambda>p. [Opened p, ReadAll p, Closed p]) (glob_glob w ''json/*.json'')))"
    using for_jsons_all_loaded [OF b, of "[]" "[]"] by simp
  moreover note main_all_loaded(1) [OF b]
  moreover have "length batch = length (glob_glob w ''json/*.json'')"
    using b by (simp add: list_all2_lengthD)
  ultimately show ?thesis by blast
qed

text \<open>Claim C4 at a concrete environment.\<close>

theorem update_once_after_all_files_witness:
  "fst (load_file two_files ''json/a.json'') = Inr [49]
   \<and> fst (load_file two_files ''json/b.json'') = Inr [50]
   \<and> main two_files =
       (Inr (),
        [Opened ''json/a.json'', ReadAll ''json/a.json'', Closed ''json/a.json'',
         Opened ''json/b.json'', ReadAll ''json/b.json'', Closed ''json/b.json'',
         Updated [[49], [50]]])
   \<and> (\<exists>batch.
           for_jsons two_files (glob_glob two_files ''json/*.json'') [] [] =
             (Inr batch,
              concat (map (\<lambda>p. [Opened p, ReadAll p, Closed p])
                (glob_glob two_files ''json/*.json''))) \<and>
           snd (main two_files) =
             concat (map (\<lambda>p. [Opened p, ReadAll p, Closed p])
               (glob_glob two_files ''json/*.json''))
             @ [Updated batch] \<and>
           length batch = length (glob_glob two_files ''json/*.json''))"
proof -
  have g: "glob_glob two_files ''json/*.json'' = [''json/a.json'', ''json/b.json'']"
    by code_simp
  have a: "fst (load_file two_files ''json/a.json'') = Inr [49]"
    by code_simp
  have b: "fst (load_file two_files ''json/b.json'') = Inr [50]"
    by code_simp
  have h: "\<forall>p\<in>set (glob_glob two_files ''json/*.json''). \<exists>d. fst (load_file two_files p) = Inr d"
    using a b by (simp add: g)
  have r: "main two_files =
       (Inr (),
        [Opened ''json/a.json'', ReadAll ''json/a.json'', Closed ''json/a.json'',
         Opened ''json/b.json'', ReadAll ''json/b.json'', Closed ''json/b.json'',
         Updated [[49], [50]]])"
    by code_simp
  show ?thesis
    by (rule conjI [OF a conjI [OF b conjI [OF r update_once_after_all_files [OF h]]]])
qed

text \<open>
  Claim C5, as the script has it. Loading a readable regular file opens it, decodes its
  whole content in the encoding of the locale (the script gives \<^verbatim>\<open>open\<close> no encoding),
  with universal newlines, and hands that text to \<^verbatim>\<open>json.loads\<close>. Where the locale
  encoding is UTF-8 the text is the UTF-8 decoding of the content.
\<close>

theorem load_file_decodes_locale_encoding:
  assumes "node_at w p = Regular True content"
  shows "fst (load_file w p) =
           (case decode (encoding w) content of
              Inl e \<Rightarrow> Inl e
            | Inr s \<Rightarrow> loads w (universal_newlines s))
         \<and> opened (snd (load_file w p)) = [p]
         \<and> (encoding w = UTF_8 \<longrightarrow>
              fst (load_file w p) =
                (case utf_8_decode (map unat content) of
                   Inl e \<Rightarrow> Inl e
                 | Inr s \<Rightarrow> loads w (universal_newlines s)))"
  using assms
  by (simp add: load_file_def open_r_def json_load_def read_all_def decode_def split: sum.splits)

text \<open>Claim C5 at a concrete environment.\<close>

theorem load_file_decodes_locale_encoding_witness:
  "node_at e_acute_utf_8 ''json/a.json'' = Regular True e_acute_json
   \<and> encoding e_acute_utf_8 = UTF_8
   \<and> utf_8_decode (map unat e_acute_json) = Inr [34, 233, 34]
   \<and> fst (load_file e_acute_utf_8 ''json/a.json'') = Inr [233]
   \<and> fst (load_file e_acute_utf_8 ''json/a.json'') =
       (case decode (encoding e_acute_utf_8) e_acute_json of
          Inl e \<Rightarrow> Inl e
        | Inr s \<Rightarrow> loads e_acute_utf_8 (universal_newlines s))
   \<and> opened (snd (load_file e_acute_utf_8 ''json/a.json'')) = [''json/a.json'']
   \<and> fst (load_file e_acute_utf_8 ''json/a.json'') =
       (case utf_8_decode (map unat e_acute_json) of
          Inl e \<Rightarrow> Inl e
        | Inr s \<Rightarrow> loads e_acute_utf_8 (universal_newlines s))"
proof -
  have h: "node_at e_acute_utf_8 ''json/a.json'' = Regular True e_acute_json"
    by code_simp
  have enc: "encoding e_acute_utf_8 = UTF_8"
    by code_simp
  have d: "utf_8_decode (map unat e_acute_json) = Inr [34, 233, 34]"
    by code_simp
  have r: "fst (load_file e_acute_utf_8 ''json/a.json'') = Inr [233]"
    by code_simp
  note t = load_file_decodes_locale_encoding [OF h]
  show ?thesis
    by (rule conjI [OF h conjI [OF enc conjI [OF d conjI [OF r
          conjI [OF conjunct1 [OF t] conjI [OF conjunct1 [OF conjunct2 [OF t]]
            mp [OF conjunct2 [OF conjunct2 [OF t]] enc]]]]]]])
qed

text \<open>
  Claim C5 as stated, that the content is always decoded as UTF-8, fails in a Latin-1
  locale. The file holds the four bytes \<^verbatim>\<open>22 C3 A9 22\<close>: under UTF-8 they are a string
  literal of the one character \<^verbatim>\<open>U+00E9\<close>, which is valid JSON, but the script reads
  them as the two characters \<^verbatim>\<open>U+00C3 U+00A9\<close> and uploads that document. In an ASCII
  locale the same file is not decoded at all: the run ends with \<^verbatim>\<open>UnicodeDecodeError\<close>.
\<close>

theorem load_file_not_always_utf_8:
  "''json/a.json'' \<in> set (glob_glob e_acute_latin_1 ''json/*.json'')
   \<and> node_at e_acute_latin_1 ''json/a.json'' = Regular True e_acute_json
   \<and> utf_8_decode (map unat e_acute_json) = Inr [34, 233, 34]
   \<and> loads e_acute_latin_1 [34, 233, 34] = Inr [233]
   \<and> fst (load_file e_acute_latin_1 ''json/a.json'') = Inr [195, 169]
   \<and> main e_acute_latin_1 =
       (Inr (),
        [Opened ''json/a.json'', ReadAll ''json/a.json'', Closed ''json/a.json'',
         Updated [[195, 169]]])
   \<and> node_at e_acute_ascii ''json/a.json'' = Regular True e_acute_json
   \<and> main e_acute_ascii =
       (Inl UnicodeDecodeError, [Opened ''json/a.json'', Closed ''json/a.json''])"
  by code_simp

text \<open>
  Claim C6. Discovery is \<^verbatim>\<open>glob.glob\<close> on the fixed pattern \<^verbatim>\<open>json/*.json\<close>: its result
  is, in listing order, the entries of the directory \<^verbatim>\<open>json\<close> itself (none from a
  deeper level) whose names match \<^verbatim>\<open>*.json\<close> under the rules of \<^verbatim>\<open>glob\<close>, that is,
  end in \<^verbatim>\<open>.json\<close> and do not start with a dot, each joined to \<^verbatim>\<open>json\<close>. The command
  line and the environment variables have no part in it, and every file the run opens
  is a discovered one, in that order.
\<close>

theorem discovery_is_fixed_glob:
  "glob_glob w ''json/*.json'' =
     map (path_join ''json'')
       (filter (\<lambda>n. \<not> ishidden n \<and> (\<exists>stem. n = stem @ ''.json'')) (listdir w ''json''))
   \<and> glob_glob (w\<lparr>argv := a, environ := env\<rparr>) ''json/*.json'' = glob_glob w ''json/*.json''
   \<and> (\<exists>rest. glob_glob w ''json/*.json'' = opened (snd (main w)) @ rest)"
proof (intro conjI)
  show "glob_glob w ''json/*.json'' =
     map (path_join ''json'')
       (filter (\<lambda>n. \<not> ishidden n \<and> (\<exists>stem. n = stem @ ''.json'')) (listdir w ''json''))"
    by (rule glob_glob_pattern)
  show "glob_glob (w\<lparr>argv := a, environ := env\<rparr>) ''json/*.json'' = glob_glob w ''json/*.json''"
    by (simp add: glob_glob_def glob1_def listdir_def)
  show "\<exists>rest. glob_glob w ''json/*.json'' = opened (snd (main w)) @ rest"
    by (rule main_opened)
qed

text \<open>Claim C6 at a concrete environment.\<close>

theorem discovery_is_fixed_glob_witness:
  "listdir mixed_names ''json'' =
     [''a.json'', ''.b.json'', ''sub.json'', ''c.JSON'', ''notes.txt'', ''d.json.bak'', ''json'']
   \<and> glob_glob mixed_names ''json/*.json'' = [''json/a.json'', ''json/sub.json'']
   \<and> map (path_join ''json'')
        (filter (\<lambda>n. \<not> ishidden n \<and> (\<exists>stem. n = stem @ ''.json''))
          (listdir mixed_names ''json'')) = [''json/a.json'', ''json/sub.json'']
   \<and> main mixed_names =
       (Inl IsADirectoryError,
        [Opened ''json/a.json'', ReadAll ''json/a.json'', Closed ''json/a.json''])"
proof -
  have l: "listdir mixed_names ''json'' =
     [''a.json'', ''.b.json'', ''sub.json'', ''c.JSON'', ''notes.txt'', ''d.json.bak'', ''json'']"
    by code_simp
  have g: "glob_glob mixed_names ''json/*.json'' = [''json/a.json'', ''json/sub.json'']"
    by code_simp
  have r: "main mixed_names =
       (Inl IsADirectoryError,
        [Opened ''json/a.json'', ReadAll ''json/a.json'', Closed ''json/a.json''])"
    by code_simp
  have e: "map (path_join ''json'')
        (filter (\<lambda>n. \<not> ishidden n \<and> (\<exists>stem. n = stem @ ''.json''))
          (listdir mixed_names ''json'')) = [''json/a.json'', ''json/sub.json'']"
    using conjunct1 [OF discovery_is_fixed_glob [of mixed_names]] g by simp
  show ?thesis
    by (rule conjI [OF l conjI [OF g conjI [OF e r]]])
qed

text \<open>
  Claim C8. In every run, whatever its outcome, the events respect the discipline of
  \<open>scoped\<close>: each handle opened is closed before anything else is opened or uploaded,
  after its content was read when the read succeeded, and no handle is held at the
  end. In particular, when \<^verbatim>\<open>json.loads\<close> rejects the text of a file, the file has
  been opened, read and closed.
\<close>

theorem handles_released:
  "scoped None (snd (main w))
   \<and> (open_r w p = Inr content \<longrightarrow> read_all w content = Inr s \<longrightarrow> loads w s = Inl e \<longrightarrow>
        load_file w p = (Inl e, [Opened p, ReadAll p, Closed p]))"
proof
  obtain r tr where fj: "for_jsons w (glob_glob w ''json/*.json'') [] [] = (r, tr)"
    by (cases "for_jsons w (glob_glob w ''json/*.json'') [] []")
  have "scoped None tr"
    using for_jsons_scoped [of "[]" w "glob_glob w ''json/*.json''" "[]"] fj by simp
  then show "scoped None (snd (main w))"
  proof (cases r)
    case (Inl e)
    then show ?thesis using \<open>scoped None tr\<close> fj main_raised [of w e tr] by simp
  next
    case (Inr objects)
    then show ?thesis
      using \<open>scoped None tr\<close> fj main_updated [of w objects tr] by (simp add: scoped_append)
  qed
  show "open_r w p = Inr content \<longrightarrow> read_all w content = Inr s \<longrightarrow> loads w s = Inl e \<longrightarrow>
        load_file w p = (Inl e, [Opened p, ReadAll p, Closed p])"
    by (simp add: load_file_def json_load_def)
qed

text \<open>Claim C8 at a concrete environment.\<close>

theorem handles_released_witness:
  "open_r one_bad_file ''json/bad.json'' = Inr invalid_json
   \<and> read_all one_bad_file invalid_json = Inr [123, 105, 110, 118, 97, 108, 105, 100, 125]
   \<and> loads one_bad_file [123, 105, 110, 118, 97, 108, 105, 100, 125] = Inl JSONDecodeError
   \<and> load_file one_bad_file ''json/bad.json'' =
       (Inl JSONDecodeError,
        [Opened ''json/bad.json'', ReadAll ''json/bad.json'', Closed ''json/bad.json''])
   \<and> scoped None (snd (main one_bad_file))"
proof -
  have o: "open_r one_bad_file ''json/bad.json'' = Inr invalid_json"
    by code_simp
  have r: "read_all one_bad_file invalid_json = Inr [123, 105, 110, 118, 97, 108, 105, 100, 125]"
    by code_simp
  have l: "loads one_bad_file [123, 105, 110, 118, 97, 108, 105, 100, 125] = Inl JSONDecodeError"
    by code_simp
  note t = handles_released [of one_bad_file "''json/bad.json''" invalid_json
      "[123, 105, 110, 118, 97, 108, 105, 100, 125]" JSONDecodeError]
  show ?thesis
    by (rule conjI [OF o conjI [OF r conjI [OF l
          conjI [OF mp [OF mp [OF mp [OF conjunct2 [OF t] o] r] l] conjunct1 [OF t]]]]])
qed

text \<open>
  Claim C9, as the script has it. Two runs that discover the same paths, find the same
  content at each of them and run under the same locale encoding (with the same
  \<^verbatim>\<open>json.loads\<close>) produce the same events, so the same batch; what \<^verbatim>\<open>Orion.update\<close>
  answers, the command line and the environment variables make no difference.
\<close>

theorem same_inputs_same_batch:
  assumes "glob_glob w1 ''json/*.json'' = glob_glob w2 ''json/*.json''"
    and "\<forall>p\<in>set (glob_glob w1 ''json/*.json''). node_at w1 p = node_at w2 p"
    and "encoding w1 = encoding w2"
    and "loads w1 = loads w2"
  shows "snd (main w1) = snd (main w2) \<and> updates (snd (main w1)) = updates (snd (main w2))"
proof -
  obtain r tr where fj: "for_jsons w2 (glob_glob w2 ''json/*.json'') [] [] = (r, tr)"
    by (cases "for_jsons w2 (glob_glob w2 ''json/*.json'') [] []")
  have "for_jsons w1 (glob_glob w1 ''json/*.json'') [] [] =
        for_jsons w2 (glob_glob w1 ''json/*.json'') [] []"
    using assms(2) by (rule for_jsons_cong [OF assms(3,4)])
  then have fj': "for_jsons w1 (glob_glob w1 ''json/*.json'') [] [] = (r, tr)"
    unfolding assms(1) fj .
  have "snd (main w1) = snd (main w2)"
  proof (cases r)
    case (Inl e)
    have "main w1 = (Inl e, tr)" using fj' Inl by (intro main_raised) simp
    moreover have "main w2 = (Inl e, tr)" using fj Inl by (intro main_raised) simp
    ultimately show ?thesis by simp
  next
    case (Inr objects)
    have "snd (main w1) = tr @ [Updated objects]" using fj' Inr by (intro main_updated) simp
    moreover have "snd (main w2) = tr @ [Updated objects]"
      using fj Inr by (intro main_updated) simp
    ultimately show ?thesis by simp
  qed
  then show ?thesis by simp
qed

text \<open>Claim C9 at a concrete environment.\<close>

theorem same_inputs_same_batch_witness:
  "glob_glob two_files ''json/*.json'' = glob_glob two_files_broker_down ''json/*.json''
   \<and> node_at two_files = node_at two_files_broker_down
   \<and> encoding two_files = encoding two_files_broker_down
   \<and> loads two_files = loads two_files_broker_down
   \<and> fst (main two_files) = Inr ()
   \<and> fst (main two_files_broker_down) = Inl BrokerError
   \<and> updates (snd (main two_files)) = [[[49], [50]]]
   \<and> (snd (main two_files) = snd (main two_files_broker_down)
       \<and> updates (snd (main two_files)) = updates (snd (main two_files_broker_down)))"
proof -
  have g: "glob_glob two_files ''json/*.json'' = glob_glob two_files_broker_down ''json/*.json''"
    by code_simp
  have n: "node_at two_files = node_at two_files_broker_down"
    by (simp add: two_files_broker_down_def)
  have e: "encoding two_files = encoding two_files_broker_down"
    by (simp add: two_files_broker_down_def)
  have l: "loads two_files = loads two_files_broker_down"
    by (simp add: two_files_broker_down_def)
  have h: "\<forall>p\<in>set (glob_glob two_files ''json/*.json'').
             node_at two_files p = node_at two_files_broker_down p"
    by (simp add: n)
  have r1: "fst (main two_files) = Inr ()"
    by code_simp
  have r2: "fst (main two_files_broker_down) = Inl BrokerError"
    by code_simp
  have u: "updates (snd (main two_files)) = [[[49], [50]]]"
    by code_simp
  show ?thesis
    by (rule conjI [OF g conjI [OF n conjI [OF e conjI [OF l conjI [OF r1 conjI [OF r2
          conjI [OF u same_inputs_same_batch [OF g h e l]]]]]]]])
qed

text \<open>
  Claim C9 as stated, with the discovered paths and the file contents as the only
  inputs, fails: the locale encoding is an input too. The two environments below differ
  in nothing but the encoding, and the batches uploaded differ.
\<close>

theorem encoding_changes_batch:
  "glob_glob e_acute_utf_8 ''json/*.json'' = [''json/a.json'']
   \<and> glob_glob e_acute_latin_1 ''json/*.json'' = [''json/a.json'']
   \<and> node_at e_acute_utf_8 ''json/a.json'' = Regular True e_acute_json
   \<and> node_at e_acute_latin_1 ''json/a.json'' = Regular True e_acute_json
   \<and> node_at e_acute_utf_8 = node_at e_acute_latin_1
   \<and> scandir e_acute_utf_8 = scandir e_acute_latin_1
   \<and> loads e_acute_utf_8 = loads e_acute_latin_1
   \<and> update_raises e_acute_utf_8 = update_raises e_acute_latin_1
   \<and> argv e_acute_utf_8 = argv e_acute_latin_1
   \<and> environ e_acute_utf_8 = environ e_acute_latin_1
   \<and> updates (snd (main e_acute_utf_8)) = [[[233]]]
   \<and> updates (snd (main e_acute_latin_1)) = [[[195, 169]]]
   \<and> updates (snd (main e_acute_utf_8)) \<noteq> updates (snd (main e_acute_latin_1))"
proof -
  have g1: "glob_glob e_acute_utf_8 ''json/*.json'' = [''json/a.json'']"
    by code_simp
  have g2: "glob_glob e_acute_latin_1 ''json/*.json'' = [''json/a.json'']"
    by code_simp
  have n1: "node_at e_acute_utf_8 ''json/a.json'' = Regular True e_acute_json"
    by code_simp
  have n2: "node_at e_acute_latin_1 ''json/a.json'' = Regular True e_acute_json"
    by code_simp
  have same: "node_at e_acute_utf_8 = node_at e_acute_latin_1
     \<and> scandir e_acute_utf_8 = scandir e_acute_latin_1
     \<and> loads e_acute_utf_8 = loads e_acute_latin_1
     \<and> update_raises e_acute_utf_8 = update_raises e_acute_latin_1
     \<and> argv e_acute_utf_8 = argv e_acute_latin_1
     \<and> environ e_acute_utf_8 = environ e_acute_latin_1"
    by (simp add: e_acute_utf_8_def e_acute_latin_1_def json_dir_def)
  have u1: "updates (snd (main e_acute_utf_8)) = [[[233]]]"
    by code_simp
  have u2: "updates (snd (main e_acute_latin_1)) = [[[195, 169]]]"
    by code_simp
  have ne: "updates (snd (main e_acute_utf_8)) \<noteq> updates (snd (main e_acute_latin_1))"
    by (simp add: u1 u2)
  show ?thesis
    using g1 g2 n1 n2 same u1 u2 ne by simp
qed

text \<open>
  Claim C10, as the script has it. Every entry of \<^verbatim>\<open>json\<close> whose name ends in \<^verbatim>\<open>.json\<close>
  and does not start with a dot is discovered, a subdirectory as much as a file.
  \<^verbatim>\<open>open\<close> fails on such an entry exactly when it is a directory, an unreadable
  regular file, an entry of another kind that cannot be opened, or has vanished. When
  it fails, some discovered file \<open>q\<close> is the first that fails to load, the run ends
  with the error of \<open>q\<close>, and \<^verbatim>\<open>Orion.update\<close> is never called.
\<close>

theorem matched_entry_not_readable:
  assumes "n \<in> set (listdir w ''json'')" and "n = stem @ ''.json''" and "\<not> ishidden n"
  shows "path_join ''json'' n \<in> set (glob_glob w ''json/*.json'')
         \<and> (\<exists>e. open_r w (path_join ''json'' n) = Inl e) =
             (case node_at w (path_join ''json'' n) of
                Regular readable content \<Rightarrow> \<not> readable
              | Directory \<Rightarrow> True
              | Special opens content \<Rightarrow> \<not> opens
              | Absent \<Rightarrow> True)
         \<and> (open_r w (path_join ''json'' n) = Inl e \<longrightarrow>
              (\<exists>pre q post e'.
                 glob_glob w ''json/*.json'' = pre @ q # post \<and>
                 (\<forall>r\<in>set pre. \<exists>d. fst (load_file w r) = Inr d) \<and>
                 fst (load_file w q) = Inl e' \<and>
                 fst (main w) = Inl e' \<and>
                 updates (snd (main w)) = []))"
proof (intro conjI impI)
  have "\<exists>stem. n = stem @ ''.json''" using assms(2) by blast
  then show m: "path_join ''json'' n \<in> set (glob_glob w ''json/*.json'')"
    using assms(1,3) by (simp add: glob_glob_pattern)
  show "(\<exists>e. open_r w (path_join ''json'' n) = Inl e) =
             (case node_at w (path_join ''json'' n) of
                Regular readable content \<Rightarrow> \<not> readable
              | Directory \<Rightarrow> True
              | Special opens content \<Rightarrow> \<not> opens
              | Absent \<Rightarrow> True)"
    by (rule open_r_fails_iff)
  assume "open_r w (path_join ''json'' n) = Inl e"
  then have "fst (load_file w (path_join ''json'' n)) = Inl e" by (rule load_file_open_fails)
  with m show "\<exists>pre q post e'.
                 glob_glob w ''json/*.json'' = pre @ q # post \<and>
                 (\<forall>r\<in>set pre. \<exists>d. fst (load_file w r) = Inr d) \<and>
                 fst (load_file w q) = Inl e' \<and>
                 fst (main w) = Inl e' \<and>
                 updates (snd (main w)) = []"
    by (rule main_aborts_at_first_failure)
qed

text \<open>Claim C10 at a concrete environment.\<close>

theorem matched_entry_not_readable_witness:
  "''sub.json'' \<in> set (listdir matched_subdir ''json'')
   \<and> ''sub.json'' = ''sub'' @ ''.json''
   \<and> \<not> ishidden ''sub.json''
   \<and> path_join ''json'' ''sub.json'' = ''json/sub.json''
   \<and> node_at matched_subdir ''json/sub.json'' = Directory
   \<and> open_r matched_subdir (path_join ''json'' ''sub.json'') = Inl IsADirectoryError
   \<and> main matched_subdir = (Inl IsADirectoryError, [])
   \<and> path_join ''json'' ''sub.json'' \<in> set (glob_glob matched_subdir ''json/*.json'')
   \<and> (\<exists>pre q post e'.
         glob_glob matched_subdir ''json/*.json'' = pre @ q # post \<and>
         (\<forall>r\<in>set pre. \<exists>d. fst (load_file matched_subdir r) = Inr d) \<and>
         fst (load_file matched_subdir q) = Inl e' \<and>
         fst (main matched_subdir) = Inl e' \<and>
         updates (snd (main matched_subdir)) = [])"
proof -
  have h1: "''sub.json'' \<in> set (listdir matched_subdir ''json'')"
    by code_simp
  have h2: "''sub.json'' = ''sub'' @ ''.json''"
    by simp
  have h3: "\<not> ishidden ''sub.json''"
    by code_simp
  have j: "path_join ''json'' ''sub.json'' = ''json/sub.json''"
    by code_simp
  have d: "node_at matched_subdir ''json/sub.json'' = Directory"
    by code_simp
  have o: "open_r matched_subdir (path_join ''json'' ''sub.json'') = Inl IsADirectoryError"
    by code_simp
  have r: "main matched_subdir = (Inl IsADirectoryError, [])"
    by code_simp
  note t = matched_entry_not_readable [OF h1 h2 h3, where e = IsADirectoryError]
  show ?thesis
    by (rule conjI [OF h1 conjI [OF h2 conjI [OF h3 conjI [OF j conjI [OF d conjI [OF o
          conjI [OF r conjI [OF conjunct1 [OF t]
            mp [OF conjunct2 [OF conjunct2 [OF t]] o]]]]]]]]])
qed

text \<open>
  Claim C10 as stated fails in two ways. A name that ends in \<^verbatim>\<open>.json\<close> but starts with
  a dot is not discovered: with the subdirectory \<^verbatim>\<open>.cache.json\<close>, which cannot be opened
  as a file, the run uploads the empty batch. And a discovered entry that is not a
  regular file can still be opened: the FIFO \<^verbatim>\<open>pipe.json\<close> is read like a file, and its
  document is uploaded.
\<close>

theorem hidden_entry_not_matched:
  "''.cache.json'' \<in> set (listdir hidden_subdir ''json'')
   \<and> ''.cache.json'' = ''.cache'' @ ''.json''
   \<and> node_at hidden_subdir (path_join ''json'' ''.cache.json'') = Directory
   \<and> open_r hidden_subdir (path_join ''json'' ''.cache.json'') = Inl IsADirectoryError
   \<and> glob_glob hidden_subdir ''json/*.json'' = []
   \<and> main hidden_subdir = (Inr (), [Updated []])
   \<and> ''pipe.json'' \<in> set (listdir fifo_entry ''json'')
   \<and> glob_glob fifo_entry ''json/*.json'' = [''json/pipe.json'']
   \<and> node_at fifo_entry ''json/pipe.json'' = Special True one_json
   \<and> open_r fifo_entry ''json/pipe.json'' = Inr one_json
   \<and> main fifo_entry =
       (Inr (),
        [Opened ''json/pipe.json'', ReadAll ''json/pipe.json'', Closed ''json/pipe.json'',
         Updated [[49]]])"
  by code_simp

end
